theory Spec2Isabelle
  imports Complex_Main "HOL-Library.List_Lexorder" "HOL-Library.Char_ord"
begin

section \<open>Python values and exceptions\<close>

text \<open>
  The module \<^verbatim>\<open>tardis/io/util.py\<close> works on Python values. The exceptions that its
  functions raise or catch are the constructors of \<open>error\<close>; a function that may raise
  returns \<open>error + 'a\<close>, with \<open>Inl\<close> for the exception.
\<close>

datatype error = AssertionError | KeyError | TypeError | ValueError | NotImplementedError

text \<open>
  A Python float is a double. Its finite values are reals; the two infinities and NaN are
  kept apart, since the comparison treats them specially. The functions of the module are
  modelled with exact arithmetic on the finite values; the rounding of doubles is written
  out where a statement depends on it (\<open>float64\<close> below).
\<close>

datatype pyfloat = Finite real | PInf | NInf | NaN

text \<open>
  The leaves of a configuration tree: booleans, integers, floats, strings, and
  \<^verbatim>\<open>astropy.units.Quantity\<close> objects (a magnitude with a unit). The unit objects
  of the unit system are the type parameter \<open>'u\<close>; equality on \<open>'u\<close> stands for
  the unit system's \<^verbatim>\<open>==\<close>.
  An integer leaf is a Python 2 \<^verbatim>\<open>int\<close>; Python 2 holds an integer beyond the machine
  word as a \<^verbatim>\<open>long\<close>, another type, which is not among the leaves: a statement that
  depends on the type of an integer leaf bounds its magnitude.
\<close>

datatype 'u leaf =
    LBool bool
  | LInt int
  | LFloat pyfloat
  | LStr string
  | LQuantity pyfloat 'u

text \<open>
  A tree is a leaf, a list, or a dict keyed by strings. A dict is the list of its items in
  iteration order.
\<close>

datatype 'u config =
    Leaf "'u leaf"
  | Seq "'u config list"
  | Mapping "(string \<times> 'u config) list"

datatype pytype = TBool | TInt | TFloat | TStr | TQuantity

fun leaf_type :: "'u leaf \<Rightarrow> pytype" where
  "leaf_type (LBool _) = TBool"
| "leaf_type (LInt _) = TInt"
| "leaf_type (LFloat _) = TFloat"
| "leaf_type (LStr _) = TStr"
| "leaf_type (LQuantity _ _) = TQuantity"

definition py_assert :: "bool \<Rightarrow> error + unit" where
  "py_assert b = (if b then Inr () else Inl AssertionError)"

subsection \<open>Doubles\<close>





section \<open>The comparator\<close>

subsection \<open>\<^verbatim>\<open>np.allclose\<close> and \<^verbatim>\<open>==\<close> on leaves\<close>

text \<open>
  \<^verbatim>\<open>np.allclose(a, b, rtol=1e-05, atol=1e-08)\<close> on two numbers: finite values are close
  when \<open>\<bar>a - b\<bar> \<le> atol + rtol * \<bar>b\<bar>\<close>; an infinity is close to the same infinity
  only; NaN is close to nothing.
\<close>

fun isclose :: "real \<Rightarrow> real \<Rightarrow> pyfloat \<Rightarrow> pyfloat \<Rightarrow> bool" where
  "isclose rtol atol (Finite a) (Finite b) = (\<bar>a - b\<bar> \<le> atol + rtol * \<bar>b\<bar>)"
| "isclose rtol atol NaN _ = False"
| "isclose rtol atol _ NaN = False"
| "isclose rtol atol x y = (x = y)"

text \<open>The number that numpy sees in a leaf; a string is not a number.\<close>

fun as_number :: "'u leaf \<Rightarrow> pyfloat option" where
  "as_number (LBool b) = Some (Finite (of_bool b))"
| "as_number (LInt i) = Some (Finite (of_int i))"
| "as_number (LFloat x) = Some x"
| "as_number (LQuantity x _) = Some x"
| "as_number (LStr _) = None"

definition np_allclose :: "real \<Rightarrow> real \<Rightarrow> 'u leaf \<Rightarrow> 'u leaf \<Rightarrow> error + bool" where
  "np_allclose rtol atol a b =
     (case (as_number a, as_number b) of
        (Some x, Some y) \<Rightarrow> Inr (isclose rtol atol x y)
      | _ \<Rightarrow> Inl TypeError)"

definition default_rtol :: real where
  "default_rtol = 1 / 100000"

text \<open>Python's \<^verbatim>\<open>==\<close> on two leaves of the same type: NaN equals nothing.\<close>

fun float_eq :: "pyfloat \<Rightarrow> pyfloat \<Rightarrow> bool" where
  "float_eq NaN _ = False"
| "float_eq _ NaN = False"
| "float_eq x y = (x = y)"

fun py_eq :: "'u leaf \<Rightarrow> 'u leaf \<Rightarrow> bool" where
  "py_eq (LFloat x) (LFloat y) = float_eq x y"
| "py_eq (LQuantity x u) (LQuantity y v) = (u = v \<and> float_eq x y)"
| "py_eq a b = (a = b)"

fun leaf_unit :: "'u leaf \<Rightarrow> 'u option" where
  "leaf_unit (LQuantity _ u) = Some u"
| "leaf_unit _ = None"

subsection \<open>\<^verbatim>\<open>assert_equality\<close>\<close>

text \<open>
  The body of the \<^verbatim>\<open>try\<close> block: the unit assertion when \<^verbatim>\<open>item1\<close> has a
  \<^verbatim>\<open>unit\<close> attribute, then the assertion of \<^verbatim>\<open>np.allclose(item1, item2, atol=0.0)\<close>.
\<close>

definition assert_close :: "'u leaf \<Rightarrow> 'u leaf \<Rightarrow> error + unit" where
  "assert_close item1 item2 =
     (case (if leaf_unit item1 \<noteq> None then py_assert (leaf_unit item1 = leaf_unit item2)
            else Inr ()) of
        Inl e \<Rightarrow> Inl e
      | Inr _ \<Rightarrow>
          (case np_allclose default_rtol 0 item1 item2 of
             Inl e \<Rightarrow> Inl e
           | Inr c \<Rightarrow> py_assert c))"

text \<open>
  \<^verbatim>\<open>assert_equality(item1, item2)\<close>. \<^verbatim>\<open>traverse_configs\<close> calls it with a leaf as
  \<^verbatim>\<open>item1\<close> and whatever stands at the same place of the other tree as \<^verbatim>\<open>item2\<close>.
\<close>

definition assert_equality :: "'u leaf \<Rightarrow> 'u config \<Rightarrow> error + unit" where
  "assert_equality item1 item2 =
     (case item2 of
        Leaf l2 \<Rightarrow>
          (if leaf_type item1 = leaf_type l2 then
             (case assert_close item1 l2 of
                Inl ValueError \<Rightarrow> py_assert (py_eq item1 l2)
              | Inl TypeError \<Rightarrow> py_assert (py_eq item1 l2)
              | r \<Rightarrow> r)
           else Inl AssertionError)
      | _ \<Rightarrow> Inl AssertionError)"

subsection \<open>\<^verbatim>\<open>traverse_configs\<close>\<close>

text \<open>\<^verbatim>\<open>other[k]\<close> for a string key \<open>k\<close>.\<close>

fun getitem :: "'u config \<Rightarrow> string \<Rightarrow> error + 'u config" where
  "getitem (Mapping kvs) k = (case map_of kvs k of None \<Rightarrow> Inl KeyError | Some v \<Rightarrow> Inr v)"
| "getitem (Seq _) k = Inl TypeError"
| "getitem (Leaf _) k = Inl TypeError"

text \<open>
  The elements that \<^verbatim>\<open>zip(base, other)\<close> draws from \<^verbatim>\<open>other\<close>: the elements of a
  list, the keys of a dict, the characters of a string; any other leaf is not iterable.
\<close>

fun py_iter :: "'u config \<Rightarrow> error + 'u config list" where
  "py_iter (Seq ys) = Inr ys"
| "py_iter (Mapping kvs) = Inr (map (\<lambda>kv. Leaf (LStr (fst kv))) kvs)"
| "py_iter (Leaf (LStr s)) = Inr (map (\<lambda>c. Leaf (LStr [c])) s)"
| "py_iter (Leaf _) = Inl TypeError"

function traverse_configs ::
    "'u config \<Rightarrow> 'u config \<Rightarrow> ('u leaf \<Rightarrow> 'u config \<Rightarrow> error + unit) \<Rightarrow> error + unit"
  and traverse_keys ::
    "(string \<times> 'u config) list \<Rightarrow> string list \<Rightarrow> 'u config \<Rightarrow>
     ('u leaf \<Rightarrow> 'u config \<Rightarrow> error + unit) \<Rightarrow> error + unit"
  and traverse_pairs ::
    "('u config \<times> 'u config) list \<Rightarrow> ('u leaf \<Rightarrow> 'u config \<Rightarrow> error + unit) \<Rightarrow> error + unit"
where
  "traverse_configs (Mapping kvs) other func = traverse_keys kvs (map fst kvs) other func"
| "traverse_configs (Seq xs) other func =
     (case py_iter other of
        Inl e \<Rightarrow> Inl e
      | Inr ys \<Rightarrow> traverse_pairs (zip xs ys) func)"
| "traverse_configs (Leaf l) other func = func l other"
| "traverse_keys kvs [] other func = Inr ()"
| "traverse_keys kvs (k # ks) other func =
     (case getitem (Mapping kvs) k of
        Inl e \<Rightarrow> Inl e
      | Inr b \<Rightarrow>
          (case getitem other k of
             Inl e \<Rightarrow> Inl e
           | Inr oth \<Rightarrow>
               (case traverse_configs b oth func of
                  Inl e \<Rightarrow> Inl e
                | Inr _ \<Rightarrow> traverse_keys kvs ks other func)))"
| "traverse_pairs [] func = Inr ()"
| "traverse_pairs (p # ps) func =
     (case traverse_configs (fst p) (snd p) func of
        Inl e \<Rightarrow> Inl e
      | Inr _ \<Rightarrow> traverse_pairs ps func)"
  by pat_completeness auto
termination
proof -
  have lookup_size: "size v < Suc (size_list (size_prod (\<lambda>_. 0) size) kvs)"
    if "map_of kvs k = Some v" for kvs :: "(string \<times> 'u config) list" and k v
    using that by (induction kvs) (auto split: if_splits)
  have zip_size: "size_list (\<lambda>p. size (fst p)) (zip xs ys) \<le> size_list size xs"
    for xs ys :: "'u config list"
  proof (induction xs arbitrary: ys)
    case Nil
    then show ?case by simp
  next
    case (Cons x xs)
    then show ?case by (cases ys) (auto intro: le_SucI)
  qed
  show ?thesis
  proof (relation "measures [
      (\<lambda>x. case x of
          Inl (b, _, _) \<Rightarrow> 2 * size b + 1
        | Inr (Inl (kvs, _, _, _)) \<Rightarrow> 2 * size (Mapping kvs)
        | Inr (Inr (ps, _)) \<Rightarrow> 2 * Suc (size_list (\<lambda>p. size (fst p)) ps)),
      (\<lambda>x. case x of
          Inl _ \<Rightarrow> 0
        | Inr (Inl (_, ks, _, _)) \<Rightarrow> length ks
        | Inr (Inr (ps, _)) \<Rightarrow> length ps)]", goal_cases)
    case 1
    then show ?case by simp
  next
    case (2 kvs other func)
    then show ?case by simp
  next
    case (3 xs other func ys)
    from zip_size [of xs ys] show ?case by simp
  next
    case (4 kvs k ks other func b oth)
    then have "map_of kvs k = Some b"
      by (auto split: option.splits)
    from lookup_size [OF this] show ?case by simp
  next
    case (5 kvs k ks other func b oth u)
    then show ?case by simp
  next
    case (6 p ps func)
    then show ?case by simp
  next
    case (7 p ps func u)
    then show ?case by simp
  qed
qed

subsection \<open>\<^verbatim>\<open>check_equality\<close>\<close>

text \<open>Only \<^verbatim>\<open>AssertionError\<close> is caught; any other exception passes to the caller.\<close>

definition check_equality :: "'u config \<Rightarrow> 'u config \<Rightarrow> error + bool" where
  "check_equality item1 item2 =
     (case traverse_configs item1 item2 assert_equality of
        Inl AssertionError \<Rightarrow> Inr False
      | Inl e \<Rightarrow> Inl e
      | Inr _ \<Rightarrow> Inr True)"

subsection \<open>The leaf comparison in double arithmetic\<close>











section \<open>The quantity parser\<close>

subsection \<open>Strings\<close>

text \<open>The whitespace of a Python 2 byte string: space, tab, newline, return, VT, FF.\<close>

definition is_space :: "char \<Rightarrow> bool" where
  "is_space c = (c \<in> {CHR '' '', CHR 0x09, CHR 0x0A, CHR 0x0D, CHR 0x0B, CHR 0x0C})"

text \<open>\<^verbatim>\<open>s.strip()\<close>\<close>

definition py_strip :: "string \<Rightarrow> string" where
  "py_strip s = rev (dropWhile is_space (rev (dropWhile is_space s)))"

text \<open>
  \<^verbatim>\<open>text.split(None, 1)\<close>: leading whitespace is skipped; the first word ends at the next
  whitespace; what follows the whitespace after it, up to the end of the string, is the
  second part. An empty or blank string gives no part, a single word gives one.
\<close>

definition py_split1 :: "string \<Rightarrow> string list" where
  "py_split1 text =
     (let t = dropWhile is_space text in
      if t = [] then []
      else
        let w = takeWhile (\<lambda>c. \<not> is_space c) t;
            r = dropWhile is_space (dropWhile (\<lambda>c. \<not> is_space c) t)
        in if r = [] then [w] else [w, r])"

subsection \<open>\<^verbatim>\<open>float\<close> on a string\<close>

definition is_digit :: "char \<Rightarrow> bool" where
  "is_digit c = (48 \<le> (of_char c :: nat) \<and> (of_char c :: nat) \<le> 57)"

definition digit_val :: "char \<Rightarrow> nat" where
  "digit_val c = of_char c - (48 :: nat)"

definition digits_val :: "string \<Rightarrow> nat" where
  "digits_val ds = foldl (\<lambda>n c. 10 * n + digit_val c) 0 ds"

definition to_lower :: "char \<Rightarrow> char" where
  "to_lower c =
     (if 65 \<le> (of_char c :: nat) \<and> (of_char c :: nat) \<le> 90
      then char_of (of_char c + (32 :: nat)) else c)"

text \<open>
  The exponent part of a decimal literal, after the \<^verbatim>\<open>e\<close>: an optional sign and at least
  one digit. The result is the factor the mantissa is multiplied by.
\<close>

definition exponent_factor :: "string \<Rightarrow> real option" where
  "exponent_factor s =
     (let (neg, ds) = (case s of
            c # r \<Rightarrow> if c = CHR ''-'' then (True, r) else if c = CHR ''+'' then (False, r)
                     else (False, s)
          | [] \<Rightarrow> (False, s))
      in if ds = [] \<or> \<not> list_all is_digit ds then None
         else Some (if neg then 1 / 10 ^ digits_val ds else 10 ^ digits_val ds))"

text \<open>
  An unsigned decimal literal: digits, an optional point and digits, with a digit on at
  least one side of the point, and an optional exponent.
\<close>

definition decimal_literal :: "string \<Rightarrow> real option" where
  "decimal_literal s =
     (let ip = takeWhile is_digit s;
          r1 = dropWhile is_digit s;
          (fp, r2) = (case r1 of
              c # r \<Rightarrow> if c = CHR ''.'' then (takeWhile is_digit r, dropWhile is_digit r)
                       else ([], r1)
            | [] \<Rightarrow> ([], r1));
          m = real (digits_val ip) + real (digits_val fp) / 10 ^ length fp
      in if ip = [] \<and> fp = [] then None
         else (case r2 of
             [] \<Rightarrow> Some m
           | c # r \<Rightarrow>
               if to_lower c = CHR ''e'' then map_option (\<lambda>f. m * f) (exponent_factor r)
               else None))"

text \<open>
  Python's \<^verbatim>\<open>float\<close> on a string: surrounding whitespace is dropped, a sign may come
  first, then \<^verbatim>\<open>inf\<close>, \<^verbatim>\<open>infinity\<close> or \<^verbatim>\<open>nan\<close> in any case, or a decimal literal.
  Anything else raises \<^verbatim>\<open>ValueError\<close>. The value of a literal is its exact real value.
\<close>

definition py_float :: "string \<Rightarrow> error + pyfloat" where
  "py_float s =
     (let t = py_strip s;
          (neg, body) = (case t of
              c # r \<Rightarrow> if c = CHR ''-'' then (True, r) else if c = CHR ''+'' then (False, r)
                       else (False, t)
            | [] \<Rightarrow> (False, t));
          low = map to_lower body
      in if low = ''inf'' \<or> low = ''infinity'' then Inr (if neg then NInf else PInf)
         else if low = ''nan'' then Inr NaN
         else (case decimal_literal body of
             None \<Rightarrow> Inl ValueError
           | Some m \<Rightarrow> Inr (Finite (if neg then - m else m))))"

subsection \<open>Float arithmetic\<close>

fun float_add :: "pyfloat \<Rightarrow> pyfloat \<Rightarrow> pyfloat" where
  "float_add (Finite a) (Finite b) = Finite (a + b)"
| "float_add NaN _ = NaN"
| "float_add _ NaN = NaN"
| "float_add PInf NInf = NaN"
| "float_add NInf PInf = NaN"
| "float_add PInf _ = PInf"
| "float_add NInf _ = NInf"
| "float_add _ PInf = PInf"
| "float_add _ NInf = NInf"

text \<open>\<^verbatim>\<open>np.log10\<close> of a real number.\<close>

definition np_log10 :: "real \<Rightarrow> pyfloat" where
  "np_log10 x = (if 0 < x then Finite (log 10 x) else if x = 0 then NInf else NaN)"

text \<open>\<^verbatim>\<open>10 ** x\<close>\<close>

fun pow10 :: "pyfloat \<Rightarrow> pyfloat" where
  "pow10 (Finite a) = Finite (10 powr a)"
| "pow10 PInf = PInf"
| "pow10 NInf = Finite 0"
| "pow10 NaN = NaN"

subsection \<open>\<^verbatim>\<open>quantity_from_str\<close>\<close>

text \<open>
  \<^verbatim>\<open>u.Quantity(value, unit)\<close>: the unit system parses the unit string, or raises
  \<^verbatim>\<open>ValueError\<close>. The unit system is the parameter \<open>parse_unit\<close>.
\<close>

definition Quantity :: "(string \<Rightarrow> 'u option) \<Rightarrow> pyfloat \<Rightarrow> string \<Rightarrow> error + 'u leaf" where
  "Quantity parse_unit value unit =
     (case parse_unit unit of
        None \<Rightarrow> Inl ValueError
      | Some u \<Rightarrow> Inr (LQuantity value u))"

text \<open>
  \<open>L_sun\<close> is \<^verbatim>\<open>constants.L_sun.cgs.value\<close>, the solar luminosity in erg/s, a constant
  of the unit system.
\<close>

definition quantity_from_str :: "(string \<Rightarrow> 'u option) \<Rightarrow> real \<Rightarrow> string \<Rightarrow> error + 'u leaf" where
  "quantity_from_str parse_unit L_sun text =
     (case py_split1 text of
        [value_str, unit] \<Rightarrow>
          (case py_float value_str of
             Inl e \<Rightarrow> Inl e
           | Inr value \<Rightarrow>
               if py_strip unit = ''log_lsun''
               then Quantity parse_unit (pow10 (float_add value (np_log10 L_sun))) ''erg/s''
               else Quantity parse_unit value unit)
      | _ \<Rightarrow> Inl ValueError)"

section \<open>The configuration loader\<close>

text \<open>
  \<^verbatim>\<open>YAMLLoader\<close> constructs Python objects from the node graph that PyYAML composes
  from a document. A scalar node carries its resolved tag and its text. A sequence node
  carries its item nodes. A mapping node carries its key and value nodes in the order of
  the document; the mapping nodes considered have the default mapping tag (the tag of a
  mapping written without an explicit tag) and string scalars as keys, each key given by
  the string it constructs to.
\<close>

datatype yaml_node =
    ScalarNode string string
  | SequenceNode "yaml_node list"
  | MappingNode "(string \<times> yaml_node) list"

text \<open>
  \<^verbatim>\<open>OrderedDict(pairs)\<close> inserts the pairs from left to right: a new key goes to the
  end, a key already present keeps its place and takes the new value.
\<close>

fun od_setitem :: "(string \<times> 'a) list \<Rightarrow> string \<Rightarrow> 'a \<Rightarrow> (string \<times> 'a) list" where
  "od_setitem [] k v = [(k, v)]"
| "od_setitem (kv # d) k v = (if fst kv = k then (k, v) # d else kv # od_setitem d k v)"

definition OrderedDict :: "(string \<times> 'a) list \<Rightarrow> (string \<times> 'a) list" where
  "OrderedDict pairs = foldl (\<lambda>d kv. od_setitem d (fst kv) (snd kv)) [] pairs"

text \<open>
  \<^verbatim>\<open>construct_quantity\<close>: \<^verbatim>\<open>construct_scalar\<close> returns the text of the scalar node.
\<close>

definition construct_quantity ::
    "(string \<Rightarrow> 'u option) \<Rightarrow> real \<Rightarrow> string \<Rightarrow> error + 'u leaf" where
  "construct_quantity parse_unit L_sun data = quantity_from_str parse_unit L_sun data"

text \<open>
  \<^verbatim>\<open>construct_object\<close> dispatches on the node's tag. The constructor registered for
  \<^verbatim>\<open>!quantity\<close> is \<^verbatim>\<open>construct_quantity\<close>; the constructor registered for the default
  mapping tag is \<^verbatim>\<open>mapping_constructor\<close>. The constructors of every other scalar tag
  are PyYAML's own, the parameter \<open>std\<close> (from tag and text to a leaf); a sequence
  node becomes the list of its constructed items. \<^verbatim>\<open>construct_pairs\<close> is PyYAML's: it
  constructs key and value of each pair in order. An exception raised for a node ends
  the construction.
\<close>

fun construct_object ::
    "(string \<Rightarrow> 'u option) \<Rightarrow> real \<Rightarrow> (string \<Rightarrow> string \<Rightarrow> error + 'u leaf) \<Rightarrow> yaml_node
     \<Rightarrow> error + 'u config"
  and construct_sequence ::
    "(string \<Rightarrow> 'u option) \<Rightarrow> real \<Rightarrow> (string \<Rightarrow> string \<Rightarrow> error + 'u leaf) \<Rightarrow> yaml_node list
     \<Rightarrow> error + 'u config list"
  and construct_pairs ::
    "(string \<Rightarrow> 'u option) \<Rightarrow> real \<Rightarrow> (string \<Rightarrow> string \<Rightarrow> error + 'u leaf)
     \<Rightarrow> (string \<times> yaml_node) list \<Rightarrow> error + (string \<times> 'u config) list"
  and mapping_constructor ::
    "(string \<Rightarrow> 'u option) \<Rightarrow> real \<Rightarrow> (string \<Rightarrow> string \<Rightarrow> error + 'u leaf)
     \<Rightarrow> (string \<times> yaml_node) list \<Rightarrow> error + 'u config"
where
  "construct_object pu L std (ScalarNode tag data) =
     (case (if tag = ''!quantity'' then construct_quantity pu L data else std tag data) of
        Inl e \<Rightarrow> Inl e
      | Inr l \<Rightarrow> Inr (Leaf l))"
| "construct_object pu L std (SequenceNode ns) =
     (case construct_sequence pu L std ns of
        Inl e \<Rightarrow> Inl e
      | Inr xs \<Rightarrow> Inr (Seq xs))"
| "construct_object pu L std (MappingNode kvs) = mapping_constructor pu L std kvs"
| "construct_sequence pu L std [] = Inr []"
| "construct_sequence pu L std (n # ns) =
     (case construct_object pu L std n of
        Inl e \<Rightarrow> Inl e
      | Inr x \<Rightarrow>
          (case construct_sequence pu L std ns of
             Inl e \<Rightarrow> Inl e
           | Inr xs \<Rightarrow> Inr (x # xs)))"
| "construct_pairs pu L std [] = Inr []"
| "construct_pairs pu L std (kn # kns) =
     (case construct_object pu L std (snd kn) of
        Inl e \<Rightarrow> Inl e
      | Inr v \<Rightarrow>
          (case construct_pairs pu L std kns of
             Inl e \<Rightarrow> Inl e
           | Inr pairs \<Rightarrow> Inr ((fst kn, v) # pairs)))"
| "mapping_constructor pu L std kvs =
     (case construct_pairs pu L std kvs of
        Inl e \<Rightarrow> Inl e
      | Inr pairs \<Rightarrow> Inr (Mapping (OrderedDict pairs)))"

section \<open>The store writer\<close>

subsection \<open>Values, stored objects and the store\<close>

text \<open>
  A value handed to \<^verbatim>\<open>to_hdf\<close>, once any unit is removed: a scalar (what
  \<^verbatim>\<open>np.isscalar\<close> accepts), an array with its shape and its entries, a one-dimensional
  pandas object that cannot be stored as a Series (the source names
  \<^verbatim>\<open>model.plasma.levels\<close>), or any other object, such as a list. The scalars themselves
  are of any type \<open>'a\<close>.
\<close>

datatype 'a pyvalue =
    Scalar 'a
  | NDArray "nat list" "'a list"
  | Levels "'a list"
  | Other "'a list"

text \<open>
  An element is a plain value or an object with a \<^verbatim>\<open>cgs\<close> attribute (a Quantity), of
  any type \<open>'q\<close>. The unit system gives \<^verbatim>\<open>value.cgs.value\<close>: the parameter \<open>cgs\<close> of
  the functions below.
\<close>

datatype ('a, 'q) element = Plain "'a pyvalue" | WithUnit 'q

fun np_isscalar :: "'a pyvalue \<Rightarrow> bool" where
  "np_isscalar (Scalar _) = True"
| "np_isscalar _ = False"

fun has_shape :: "'a pyvalue \<Rightarrow> bool" where
  "has_shape (NDArray _ _) = True"
| "has_shape (Levels _) = True"
| "has_shape _ = False"

fun ndim :: "'a pyvalue \<Rightarrow> nat" where
  "ndim (NDArray shape _) = length shape"
| "ndim (Levels _) = 1"
| "ndim _ = 0"

text \<open>
  The objects in the store. A Series is the list of its rows, each an index label with a
  value; labels may repeat. \<^verbatim>\<open>pd.DataFrame(value)\<close> and \<^verbatim>\<open>pd.DataFrame([value])\<close> are
  kept as they are built.
\<close>

datatype label = Name string | Pos nat

datatype 'a stored =
    Series "(label \<times> 'a) list"
  | DataFrame "'a pyvalue"
  | DataFrameOfList "'a pyvalue"

text \<open>
  The HDF file: the object stored under each key, and the settings of each explicit
  \<^verbatim>\<open>pd.HDFStore(path_or_buf, complevel=..., complib=...)\<close> that the function has opened.
\<close>

record 'a hdf =
  contents :: "string \<rightharpoonup> 'a stored"
  opened :: "(nat \<times> string) list"

text \<open>\<^verbatim>\<open>os.path.join(a, b)\<close> on POSIX.\<close>

definition os_path_join :: "string \<Rightarrow> string \<Rightarrow> string" where
  "os_path_join a b =
     (if b \<noteq> [] \<and> hd b = CHR ''/'' then b
      else if a = [] \<or> last a = CHR ''/'' then a @ b
      else a @ ''/'' @ b)"

text \<open>pandas addresses a node by its key with a leading slash.\<close>

definition hdf_key :: "string \<Rightarrow> string" where
  "hdf_key k = (if k \<noteq> [] \<and> hd k = CHR ''/'' then k else CHR ''/'' # k)"

text \<open>\<^verbatim>\<open>obj.to_hdf(path_or_buf, key)\<close> puts the object under the key, replacing what was
  there.\<close>

definition put :: "'a hdf \<Rightarrow> string \<Rightarrow> 'a stored \<Rightarrow> 'a hdf" where
  "put h key obj = h\<lparr>contents := (contents h)(hdf_key key \<mapsto> obj)\<rparr>"

text \<open>
  \<^verbatim>\<open>pd.Series(value).to_hdf(path_or_buf, key)\<close>: the rows of the Series are the entries
  of the value, labelled by position. \<^verbatim>\<open>to_hdf\<close> calls it for values with one dimension
  only.
\<close>

fun Series_to_hdf :: "'a hdf \<Rightarrow> string \<Rightarrow> 'a pyvalue \<Rightarrow> error + 'a hdf" where
  "Series_to_hdf h key (NDArray shape xs) =
     (if length shape = 1 then Inr (put h key (Series (zip (map Pos [0..<length xs]) xs)))
      else Inl ValueError)"
| "Series_to_hdf h key (Levels xs) = Inl NotImplementedError"
| "Series_to_hdf h key (Scalar x) = Inr (put h key (Series [(Pos 0, x)]))"
| "Series_to_hdf h key (Other xs) = Inr (put h key (Series (zip (map Pos [0..<length xs]) xs)))"

text \<open>
  \<^verbatim>\<open>pd.DataFrame(value).to_hdf(path_or_buf, key)\<close>: an array needs one or two dimensions
  (\<^verbatim>\<open>ValueError\<close> otherwise).
\<close>

fun DataFrame_to_hdf :: "'a hdf \<Rightarrow> string \<Rightarrow> 'a pyvalue \<Rightarrow> error + 'a hdf" where
  "DataFrame_to_hdf h key (NDArray shape xs) =
     (if length shape = 1 \<or> length shape = 2 then Inr (put h key (DataFrame (NDArray shape xs)))
      else Inl ValueError)"
| "DataFrame_to_hdf h key (Scalar x) = Inl ValueError"
| "DataFrame_to_hdf h key v = Inr (put h key (DataFrame v))"

text \<open>
  \<^verbatim>\<open>pd.Series(scalars)\<close> for the dict of buffered scalars: one row for each item, the
  keys sorted.
\<close>

definition Series_of_dict :: "(string \<times> 'a) list \<Rightarrow> (label \<times> 'a) list" where
  "Series_of_dict d = map (\<lambda>kv. (Name (fst kv), snd kv)) (sort_key fst d)"

text \<open>
  \<^verbatim>\<open>store[scalars_path].append(scalars_series)\<close>: a Series takes the new rows after its
  own; a DataFrame refuses a Series without a name.
\<close>

fun append_series :: "'a stored \<Rightarrow> (label \<times> 'a) list \<Rightarrow> error + (label \<times> 'a) list" where
  "append_series (Series old) new = Inr (old @ new)"
| "append_series _ new = Inl TypeError"

subsection \<open>\<^verbatim>\<open>to_hdf\<close>\<close>

text \<open>\<^verbatim>\<open>value.cgs.value\<close> when the value has a \<^verbatim>\<open>cgs\<close> attribute, the value itself
  otherwise.\<close>

definition cgs_value :: "('q \<Rightarrow> 'a pyvalue) \<Rightarrow> ('a, 'q) element \<Rightarrow> 'a pyvalue" where
  "cgs_value cgs elem = (case elem of WithUnit q \<Rightarrow> cgs q | Plain v \<Rightarrow> v)"

text \<open>
  The body of the loop for one item of \<^verbatim>\<open>elements\<close>, on the store and the dict
  \<^verbatim>\<open>scalars\<close>. The first case is the branch \<^verbatim>\<open>np.isscalar(value)\<close>. An exception
  leaves the loop with the store as it is then.
\<close>

definition store_element ::
    "('q \<Rightarrow> 'a pyvalue) \<Rightarrow> string \<Rightarrow> string \<Rightarrow> ('a, 'q) element
     \<Rightarrow> 'a hdf \<Rightarrow> (string \<times> 'a) list
     \<Rightarrow> (error \<times> 'a hdf) + ('a hdf \<times> (string \<times> 'a) list)" where
  "store_element cgs path key elem h scalars =
     (let value = cgs_value cgs elem in
      case value of
        Scalar x \<Rightarrow> Inr (h, od_setitem scalars key x)
      | _ \<Rightarrow>
          (case
             (if has_shape value then
                (if ndim value = 1 then
                   (case Series_to_hdf h (os_path_join path key) value of
                      Inl NotImplementedError \<Rightarrow> DataFrame_to_hdf h (os_path_join path key) value
                    | r \<Rightarrow> r)
                 else DataFrame_to_hdf h (os_path_join path key) value)
              else Inr (put h (os_path_join path key) (DataFrameOfList value)))
           of Inl e \<Rightarrow> Inl (e, h)
            | Inr h' \<Rightarrow> Inr (h', scalars)))"

fun store_elements ::
    "('q \<Rightarrow> 'a pyvalue) \<Rightarrow> string \<Rightarrow> (string \<times> ('a, 'q) element) list
     \<Rightarrow> 'a hdf \<Rightarrow> (string \<times> 'a) list
     \<Rightarrow> (error \<times> 'a hdf) + ('a hdf \<times> (string \<times> 'a) list)" where
  "store_elements cgs path [] h scalars = Inr (h, scalars)"
| "store_elements cgs path (kv # rest) h scalars =
     (case store_element cgs path (fst kv) (snd kv) h scalars of
        Inl eh \<Rightarrow> Inl eh
      | Inr (h', scalars') \<Rightarrow> store_elements cgs path rest h' scalars')"

text \<open>
  \<^verbatim>\<open>to_hdf(path_or_buf, path, elements, complevel, complib)\<close>. The store \<open>h\<close> is the
  state of the file \<^verbatim>\<open>path_or_buf\<close>; the result is the store after the call, or the
  exception raised with the store at that moment.
\<close>

definition to_hdf ::
    "('q \<Rightarrow> 'a pyvalue) \<Rightarrow> 'a hdf \<Rightarrow> string \<Rightarrow> (string \<times> ('a, 'q) element) list
     \<Rightarrow> nat \<Rightarrow> string \<Rightarrow> (error \<times> 'a hdf) + 'a hdf" where
  "to_hdf cgs h path elements complevel complib =
     (case store_elements cgs path elements h [] of
        Inl eh \<Rightarrow> Inl eh
      | Inr (h1, scalars) \<Rightarrow>
          if scalars \<noteq> [] then
            (let scalars_series = Series_of_dict scalars;
                 scalars_path = os_path_join path ''scalars'';
                 store = h1\<lparr>opened := opened h1 @ [(complevel, complib)]\<rparr>
             in case (case contents store (hdf_key scalars_path) of
                        Some obj \<Rightarrow> append_series obj scalars_series
                      | None \<Rightarrow> Inr scalars_series) of
                  Inl e \<Rightarrow> Inl (e, store)
                | Inr series \<Rightarrow> Inr (put store (os_path_join path ''scalars'') (Series series)))
          else Inr h1)"

section \<open>Notions used in the statements\<close>

subsection \<open>Positions in a tree and in a document\<close>

text \<open>
  A position in a tree is a path of dict keys and list indices; \<open>subtree_at\<close> is the
  node found by following the path.
\<close>

datatype step = Key string | Index nat

fun subtree_at :: "'u config \<Rightarrow> step list \<Rightarrow> 'u config option" where
  "subtree_at c [] = Some c"
| "subtree_at (Mapping kvs) (Key k # p) =
     (case map_of kvs k of None \<Rightarrow> None | Some v \<Rightarrow> subtree_at v p)"
| "subtree_at (Seq xs) (Index i # p) =
     (if i < length xs then subtree_at (xs ! i) p else None)"
| "subtree_at _ _ = None"


subsection \<open>Trees without NaN\<close>

text \<open>A tree is free of NaN when no float leaf and no magnitude of a Quantity is NaN.\<close>

definition leaf_not_nan :: "'u leaf \<Rightarrow> bool" where
  "leaf_not_nan l = (as_number l \<noteq> Some NaN)"

fun nan_free :: "'u config \<Rightarrow> bool" where
  "nan_free (Leaf l) = leaf_not_nan l"
| "nan_free (Seq xs) = list_all nan_free xs"
| "nan_free (Mapping kvs) = list_all (\<lambda>kv. nan_free (snd kv)) kvs"

subsection \<open>Outcomes of the store writer\<close>

text \<open>The store that a call leaves behind, whether it returns or raises.\<close>

fun store_after :: "(error \<times> 'a hdf) + 'a hdf \<Rightarrow> 'a hdf" where
  "store_after (Inl (e, h)) = h"
| "store_after (Inr h) = h"

text \<open>The store that the loop leaves behind, whether it ends or raises.\<close>

fun loop_store :: "(error \<times> 'a hdf) + ('a hdf \<times> (string \<times> 'a) list) \<Rightarrow> 'a hdf" where
  "loop_store (Inl (e, h)) = h"
| "loop_store (Inr (h, scalars)) = h"

text \<open>The scalar items of \<^verbatim>\<open>elements\<close>, in iteration order.\<close>

fun scalar_items ::
    "('q \<Rightarrow> 'a pyvalue) \<Rightarrow> (string \<times> ('a, 'q) element) list \<Rightarrow> (string \<times> 'a) list" where
  "scalar_items cgs [] = []"
| "scalar_items cgs (kv # rest) =
     (case cgs_value cgs (snd kv) of
        Scalar x \<Rightarrow> (fst kv, x) # scalar_items cgs rest
      | _ \<Rightarrow> scalar_items cgs rest)"

subsection \<open>Parameters of the examples\<close>

text \<open>A small unit system for concrete examples: a unit is named by its trimmed string.\<close>

definition cgs_units :: "string \<Rightarrow> string option" where
  "cgs_units s = (if py_strip s \<in> {''erg/s'', ''erg'', ''cm'', ''s''} then Some (py_strip s) else None)"

text \<open>The solar luminosity in erg/s, for concrete examples.\<close>

definition L_sun_cgs :: real where
  "L_sun_cgs = 3846 * 10 ^ 30"


text \<open>A conversion for concrete examples: the Quantity \<open>q\<close> is the scalar \<open>100 * q\<close>
  in CGS.\<close>

definition cm_of_m :: "int \<Rightarrow> int pyvalue" where
  "cm_of_m q = Scalar (100 * q)"

section \<open>Properties of the comparator\<close>

subsection \<open>Which exceptions can arise\<close>

lemma assert_equality_cases:
  "assert_equality l b = Inr () \<or> assert_equality l b = Inl AssertionError"
  by (cases b; cases l)
     (auto simp: assert_equality_def assert_close_def np_allclose_def py_assert_def
           split: config.splits leaf.splits sum.splits error.splits option.splits)

lemma getitem_errors: "getitem b k = Inl e \<Longrightarrow> e = KeyError \<or> e = TypeError"
  by (cases b) (auto split: option.splits)

lemma py_iter_errors: "py_iter b = Inl e \<Longrightarrow> e = TypeError"
  by (induction b rule: py_iter.induct) auto

lemma traverse_errors:
  fixes a b other :: "'u config"
    and kvs :: "(string \<times> 'u config) list"
    and ps :: "('u config \<times> 'u config) list"
  assumes f: "\<And>l c e. func l c = Inl e \<Longrightarrow> e \<in> E"
    and E: "KeyError \<in> E" "TypeError \<in> E"
  shows "traverse_configs a b func = Inl e \<Longrightarrow> e \<in> E"
    and "traverse_keys kvs ks other func = Inl e \<Longrightarrow> e \<in> E"
    and "traverse_pairs ps func = Inl e \<Longrightarrow> e \<in> E"
  using f
proof (induction a b func and kvs ks other func and ps func
       rule: traverse_configs_traverse_keys_traverse_pairs.induct)
  case (1 kvs other func)
  then show ?case by simp
next
  case (2 xs other func)
  then show ?case using E by (auto split: sum.splits dest: py_iter_errors)
next
  case (3 l other func)
  then show ?case by auto
next
  case (4 kvs other func)
  then show ?case by simp
next
  case (5 kvs k ks other func)
  show ?case
  proof (cases "getitem (Mapping kvs) k")
    case (Inl e1)
    with 5(3) have "e = e1" by (simp del: getitem.simps)
    with getitem_errors [OF Inl] E show ?thesis by auto
  next
    case b: (Inr bv)
    show ?thesis
    proof (cases "getitem other k")
      case (Inl e2)
      with b 5(3) have "e = e2" by (simp del: getitem.simps)
      with getitem_errors [OF Inl] E show ?thesis by auto
    next
      case o: (Inr ov)
      show ?thesis
      proof (cases "traverse_configs bv ov func")
        case (Inl e3)
        with b o 5(3) have "e = e3" by (simp del: getitem.simps)
        with Inl 5(1)[OF b o _ 5(4)] show ?thesis by simp
      next
        case (Inr u)
        with b o 5(3) have "traverse_keys kvs ks other func = Inl e"
          by (simp del: getitem.simps)
        with 5(2)[OF b o Inr _ 5(4)] show ?thesis by simp
      qed
    qed
  qed
next
  case (6 func)
  then show ?case by simp
next
  case (7 p ps func)
  show ?case
  proof (cases "traverse_configs (fst p) (snd p) func")
    case (Inl e3)
    with 7(3) have "e = e3" by simp
    with Inl 7(1)[OF _ 7(4)] show ?thesis by simp
  next
    case (Inr u)
    with 7(3) have "traverse_pairs ps func = Inl e" by simp
    with 7(2)[OF Inr _ 7(4)] show ?thesis by simp
  qed
qed

lemma check_equality_Leaf:
  "\<exists>r. check_equality (Leaf l) b = Inr r"
  using assert_equality_cases [of l b] by (auto simp: check_equality_def)

text \<open>
  C1, as stated, fails: \<^verbatim>\<open>check_equality({'a': 1}, {})\<close> does not return
  \<^verbatim>\<open>False\<close>. The lookup \<^verbatim>\<open>other[k]\<close> raises \<^verbatim>\<open>KeyError\<close>, which the
  \<^verbatim>\<open>except AssertionError\<close> clause does not catch.
\<close>

theorem check_equality_KeyError_counterexample:
  "check_equality (Mapping [(''a'', Leaf (LInt 1))]) (Mapping [] :: string config) = Inl KeyError"
  by (simp add: check_equality_def)

text \<open>
  C1, amended: \<^verbatim>\<open>check_equality\<close> never lets an \<^verbatim>\<open>AssertionError\<close> reach the
  caller. It returns \<^verbatim>\<open>False\<close> exactly when the traversal raises
  \<^verbatim>\<open>AssertionError\<close> (a leaf whose type, unit or value differs) and \<^verbatim>\<open>True\<close>
  exactly when the traversal finishes; the only exceptions that reach the caller are
  \<^verbatim>\<open>KeyError\<close> and \<^verbatim>\<open>TypeError\<close>, raised while walking the second tree. When the
  first tree is a leaf, the result is always a boolean, \<^verbatim>\<open>False\<close> against a list or a
  dict. A dict against a dict without its first key raises \<^verbatim>\<open>KeyError\<close>; a dict with
  a key against a list or a leaf, and a list against an integer, raise \<^verbatim>\<open>TypeError\<close>.
\<close>

theorem check_equality_absorbs_AssertionError:
  fixes a b :: "'u config"
  shows "check_equality a b \<in> {Inr True, Inr False, Inl KeyError, Inl TypeError}
    \<and> (check_equality a b = Inr False) = (traverse_configs a b assert_equality = Inl AssertionError)
    \<and> (check_equality a b = Inr True) = (traverse_configs a b assert_equality = Inr ())
    \<and> (\<exists>r. check_equality (Leaf l) b = Inr r)
    \<and> check_equality (Leaf l) (Seq ys) = Inr False
    \<and> check_equality (Leaf l) (Mapping kvs) = Inr False
    \<and> check_equality (Mapping ((k, v) # rest)) (Mapping []) = Inl KeyError
    \<and> check_equality (Mapping ((k, v) # rest)) (Seq ys) = Inl TypeError
    \<and> check_equality (Mapping ((k, v) # rest)) (Leaf l) = Inl TypeError
    \<and> check_equality (Seq xs) (Leaf (LInt i)) = Inl TypeError"
proof -
  have E: "e \<in> {AssertionError, KeyError, TypeError}"
    if "traverse_configs a b assert_equality = Inl e" for e
  proof (rule traverse_errors(1) [OF _ _ _ that])
    fix l :: "'u leaf" and c e
    assume "assert_equality l c = Inl e"
    with assert_equality_cases [of l c] show "e \<in> {AssertionError, KeyError, TypeError}"
      by auto
  qed simp_all
  have general: "check_equality a b \<in> {Inr True, Inr False, Inl KeyError, Inl TypeError}
    \<and> (check_equality a b = Inr False) = (traverse_configs a b assert_equality = Inl AssertionError)
    \<and> (check_equality a b = Inr True) = (traverse_configs a b assert_equality = Inr ())"
  proof (cases "traverse_configs a b assert_equality")
    case (Inl e)
    with E [OF Inl] show ?thesis
      by (auto simp: check_equality_def)
  next
    case (Inr u)
    then show ?thesis
      by (auto simp: check_equality_def)
  qed
  have leaf: "check_equality (Leaf l) (Seq ys) = Inr False"
    "check_equality (Leaf l) (Mapping kvs) = Inr False"
    by (simp_all add: check_equality_def assert_equality_def)
  have container: "check_equality (Mapping ((k, v) # rest)) (Mapping []) = Inl KeyError"
    "check_equality (Mapping ((k, v) # rest)) (Seq ys) = Inl TypeError"
    "check_equality (Mapping ((k, v) # rest)) (Leaf l) = Inl TypeError"
    "check_equality (Seq xs) (Leaf (LInt i)) = Inl TypeError"
    by (simp_all add: check_equality_def)
  from general check_equality_Leaf [of l b] leaf container show ?thesis
    by (intro conjI) blast+
qed

subsection \<open>The tolerance of the leaf comparison\<close>

lemmas leaf_cmp_defs =
  assert_equality_def assert_close_def np_allclose_def default_rtol_def py_assert_def


































subsection \<open>Reflexivity\<close>

lemma isclose_refl: "0 \<le> rtol \<Longrightarrow> x \<noteq> NaN \<Longrightarrow> isclose rtol 0 x x"
  by (cases x) simp_all

lemma assert_equality_refl:
  "leaf_not_nan l \<Longrightarrow> assert_equality l (Leaf l) = Inr ()"
  by (cases l) (simp_all add: leaf_cmp_defs leaf_not_nan_def isclose_refl)

lemma traverse_pairs_refl:
  "(\<And>x. x \<in> set xs \<Longrightarrow> traverse_configs x x func = Inr ())
   \<Longrightarrow> traverse_pairs (zip xs xs) func = Inr ()"
  by (induction xs) simp_all

lemma traverse_keys_refl:
  "(\<And>k. k \<in> set ks \<Longrightarrow> \<exists>v. map_of kvs k = Some v \<and> traverse_configs v v func = Inr ())
   \<Longrightarrow> traverse_keys kvs ks (Mapping kvs) func = Inr ()"
proof (induction ks)
  case Nil
  then show ?case by simp
next
  case (Cons k ks)
  from Cons.prems [of k] obtain v
    where "map_of kvs k = Some v" "traverse_configs v v func = Inr ()" by auto
  moreover have "traverse_keys kvs ks (Mapping kvs) func = Inr ()"
    using Cons by simp
  ultimately show ?case by simp
qed

lemma traverse_configs_refl:
  "nan_free X \<Longrightarrow> traverse_configs X X assert_equality = Inr ()"
proof (induction X)
  case (Leaf l)
  then show ?case by (simp add: assert_equality_refl)
next
  case (Seq xs)
  have "traverse_pairs (zip xs xs) assert_equality = Inr ()"
  proof (rule traverse_pairs_refl)
    fix x assume "x \<in> set xs"
    with Seq show "traverse_configs x x assert_equality = Inr ()"
      by (simp add: list_all_iff)
  qed
  then show ?case by simp
next
  case (Mapping kvs)
  have "traverse_keys kvs (map fst kvs) (Mapping kvs) assert_equality = Inr ()"
  proof (rule traverse_keys_refl)
    fix k assume "k \<in> set (map fst kvs)"
    then obtain v where v: "map_of kvs k = Some v"
      by (metis map_of_eq_None_iff not_Some_eq set_map)
    then have in_kvs: "(k, v) \<in> set kvs" by (rule map_of_SomeD)
    with Mapping.prems have "nan_free v" by (auto simp: list_all_iff)
    with Mapping.IH [OF in_kvs] have "traverse_configs v v assert_equality = Inr ()"
      by simp
    with v show "\<exists>v. map_of kvs k = Some v \<and> traverse_configs v v assert_equality = Inr ()"
      by blast
  qed
  then show ?case by simp
qed

text \<open>
  C5, as stated, fails on a tree with a NaN: \<^verbatim>\<open>np.allclose(nan, nan)\<close> is false, the
  assertion fails, and \<^verbatim>\<open>check_equality(X, X)\<close> is \<^verbatim>\<open>False\<close>.
\<close>

theorem check_equality_NaN_counterexample:
  "check_equality (Leaf (LFloat NaN)) (Leaf (LFloat NaN) :: string config) = Inr False
   \<and> check_equality (Mapping [(''v'', Seq [Leaf (LQuantity NaN ''erg/s'')])])
        (Mapping [(''v'', Seq [Leaf (LQuantity NaN ''erg/s'')])]) = Inr False"
  by (simp add: check_equality_def leaf_cmp_defs)

text \<open>
  C5, amended: for every tree \<open>X\<close> of nested mappings, sequences and leaves (Quantities
  included) in which no float and no magnitude is NaN, \<^verbatim>\<open>check_equality(X, X)\<close>
  returns \<^verbatim>\<open>True\<close>.
\<close>

theorem check_equality_refl:
  "nan_free X \<Longrightarrow> check_equality X X = Inr True"
  by (simp add: check_equality_def traverse_configs_refl)

text \<open>
  The amended C5 on a tree with nested mappings, a sequence, a Quantity, a string, an
  integer, an infinite float and a boolean.
\<close>

theorem check_equality_refl_witness:
  "nan_free (Mapping [(''model'', Mapping [(''v'', Leaf (LQuantity (Finite 11000) ''km/s'')),
        (''name'', Leaf (LStr ''w7''))]),
      (''shells'', Seq [Leaf (LInt 20), Leaf (LFloat PInf), Leaf (LBool True)])])
   \<and> check_equality
     (Mapping [(''model'', Mapping [(''v'', Leaf (LQuantity (Finite 11000) ''km/s'')),
        (''name'', Leaf (LStr ''w7''))]),
      (''shells'', Seq [Leaf (LInt 20), Leaf (LFloat PInf), Leaf (LBool True)])])
     (Mapping [(''model'', Mapping [(''v'', Leaf (LQuantity (Finite 11000) ''km/s'')),
        (''name'', Leaf (LStr ''w7''))]),
      (''shells'', Seq [Leaf (LInt 20), Leaf (LFloat PInf), Leaf (LBool True)])]) = Inr True"
  using check_equality_refl [of "Mapping [(''model'', Mapping [(''v'', Leaf (LQuantity (Finite 11000) ''km/s'')),
        (''name'', Leaf (LStr ''w7''))]),
      (''shells'', Seq [Leaf (LInt 20), Leaf (LFloat PInf), Leaf (LBool True)])]"]
  by (simp add: leaf_not_nan_def)

subsection \<open>Units of Quantities\<close>

lemma traverse_pairs_member:
  "traverse_pairs ps func = Inr () \<Longrightarrow> p \<in> set ps
   \<Longrightarrow> traverse_configs (fst p) (snd p) func = Inr ()"
  by (induction ps) (auto split: sum.splits)

lemma traverse_keys_member:
  "traverse_keys kvs ks other func = Inr () \<Longrightarrow> k \<in> set ks
   \<Longrightarrow> \<exists>b oth. map_of kvs k = Some b \<and> getitem other k = Inr oth
         \<and> traverse_configs b oth func = Inr ()"
  by (induction ks) (auto split: sum.splits option.splits)

lemma traverse_configs_subtree:
  "traverse_configs a b func = Inr () \<Longrightarrow> subtree_at a p = Some a'
   \<Longrightarrow> subtree_at b p = Some b' \<Longrightarrow> traverse_configs a' b' func = Inr ()"
proof (induction p arbitrary: a b)
  case Nil
  then show ?case by simp
next
  case (Cons s p)
  show ?case
  proof (cases s)
    case (Key k)
    from Cons.prems(2) Key obtain kvs v
      where a: "a = Mapping kvs" "map_of kvs k = Some v" "subtree_at v p = Some a'"
      by (cases a) (auto split: option.splits)
    from Cons.prems(3) Key obtain kvs' v'
      where b: "b = Mapping kvs'" "map_of kvs' k = Some v'" "subtree_at v' p = Some b'"
      by (cases b) (auto split: option.splits)
    from a(2) have "k \<in> set (map fst kvs)"
      by (metis map_of_eq_None_iff option.distinct(1) set_map)
    with Cons.prems(1) a(1) traverse_keys_member [of kvs "map fst kvs" b func k]
    obtain bb oth where "map_of kvs k = Some bb" "getitem b k = Inr oth"
        "traverse_configs bb oth func = Inr ()"
      by auto
    with a(2) b(1,2) have "traverse_configs v v' func = Inr ()" by simp
    then show ?thesis using a(3) b(3) by (rule Cons.IH)
  next
    case (Index i)
    from Cons.prems(2) Index obtain xs
      where a: "a = Seq xs" "i < length xs" "subtree_at (xs ! i) p = Some a'"
      by (cases a) (auto split: if_splits)
    from Cons.prems(3) Index obtain ys
      where b: "b = Seq ys" "i < length ys" "subtree_at (ys ! i) p = Some b'"
      by (cases b) (auto split: if_splits)
    from a(2) b(2) have "(xs ! i, ys ! i) \<in> set (zip xs ys)"
      by (auto simp: set_zip)
    with Cons.prems(1) a(1) b(1) traverse_pairs_member [of "zip xs ys" func "(xs ! i, ys ! i)"]
    have "traverse_configs (xs ! i) (ys ! i) func = Inr ()" by simp
    then show ?thesis using a(3) b(3) by (rule Cons.IH)
  qed
qed

lemma assert_equality_units:
  "u1 \<noteq> u2 \<Longrightarrow> assert_equality (LQuantity m1 u1) (Leaf (LQuantity m2 u2)) = Inl AssertionError"
  by (simp add: leaf_cmp_defs)

text \<open>
  C8: two Quantities with different units never compare equal, whatever their magnitudes:
  \<^verbatim>\<open>assert_equality\<close> raises \<^verbatim>\<open>AssertionError\<close> on them and \<^verbatim>\<open>check_equality\<close>
  on the two leaves returns \<^verbatim>\<open>False\<close>. When they stand at the same position of two
  trees, \<^verbatim>\<open>check_equality\<close> on the trees does not return \<^verbatim>\<open>True\<close>.
\<close>

theorem check_equality_requires_equal_units:
  assumes "u1 \<noteq> u2"
  shows "assert_equality (LQuantity m1 u1) (Leaf (LQuantity m2 u2)) = Inl AssertionError
    \<and> check_equality (Leaf (LQuantity m1 u1)) (Leaf (LQuantity m2 u2)) = Inr False
    \<and> (\<forall>a b p. subtree_at a p = Some (Leaf (LQuantity m1 u1))
          \<longrightarrow> subtree_at b p = Some (Leaf (LQuantity m2 u2))
          \<longrightarrow> check_equality a b \<noteq> Inr True)"
proof (intro conjI allI impI)
  show "assert_equality (LQuantity m1 u1) (Leaf (LQuantity m2 u2)) = Inl AssertionError"
    using assms by (rule assert_equality_units)
  then show "check_equality (Leaf (LQuantity m1 u1)) (Leaf (LQuantity m2 u2)) = Inr False"
    by (simp add: check_equality_def)
next
  fix a b :: "'a config" and p
  assume a: "subtree_at a p = Some (Leaf (LQuantity m1 u1))"
    and b: "subtree_at b p = Some (Leaf (LQuantity m2 u2))"
  show "check_equality a b \<noteq> Inr True"
  proof
    assume "check_equality a b = Inr True"
    then have "traverse_configs a b assert_equality = Inr ()"
      by (auto simp: check_equality_def split: sum.splits error.splits)
    from traverse_configs_subtree [OF this a b] assert_equality_units [OF assms, of m1 m2]
    show False by simp
  qed
qed

text \<open>
  C8 with the units \<^verbatim>\<open>erg/s\<close> and \<^verbatim>\<open>erg\<close> and equal magnitudes: on the two leaves,
  and on two trees that hold them in a list under a key.
\<close>

theorem check_equality_requires_equal_units_witness:
  "''erg/s'' \<noteq> ''erg''
   \<and> check_equality (Leaf (LQuantity (Finite 5) ''erg/s'')) (Leaf (LQuantity (Finite 5) ''erg''))
       = Inr False
   \<and> subtree_at (Mapping [(''supernova'', Seq [Leaf (LStr ''x''), Leaf (LQuantity (Finite 5) ''erg/s'')])])
        [Key ''supernova'', Index 1] = Some (Leaf (LQuantity (Finite 5) ''erg/s''))
   \<and> subtree_at (Mapping [(''supernova'', Seq [Leaf (LStr ''x''), Leaf (LQuantity (Finite 5) ''erg'')])])
        [Key ''supernova'', Index 1] = Some (Leaf (LQuantity (Finite 5) ''erg''))
   \<and> check_equality
        (Mapping [(''supernova'', Seq [Leaf (LStr ''x''), Leaf (LQuantity (Finite 5) ''erg/s'')])])
        (Mapping [(''supernova'', Seq [Leaf (LStr ''x''), Leaf (LQuantity (Finite 5) ''erg'')])])
       \<noteq> Inr True"
proof -
  have ne: "''erg/s'' \<noteq> ''erg''" by simp
  note units = check_equality_requires_equal_units [OF ne, of "Finite 5" "Finite 5"]
  have a: "subtree_at (Mapping [(''supernova'', Seq [Leaf (LStr ''x''), Leaf (LQuantity (Finite 5) ''erg/s'')])])
        [Key ''supernova'', Index 1] = Some (Leaf (LQuantity (Finite 5) ''erg/s''))"
    by simp
  have b: "subtree_at (Mapping [(''supernova'', Seq [Leaf (LStr ''x''), Leaf (LQuantity (Finite 5) ''erg'')])])
        [Key ''supernova'', Index 1] = Some (Leaf (LQuantity (Finite 5) ''erg''))"
    by simp
  from units a b show ?thesis using ne by blast
qed

subsection \<open>Sequences of unequal length\<close>

lemma zip_append_right: "zip xs (xs @ extra) = zip xs xs"
  by (induction xs) simp_all

lemma zip_append_left: "zip (xs @ extra) xs = zip xs xs"
  by (induction xs) simp_all

lemma zip_take_min:
  "zip (take (min (length xs) (length ys)) xs) (take (min (length xs) (length ys)) ys) = zip xs ys"
  by (simp add: take_zip [symmetric])

text \<open>
  The outcome of a traversal of paired configurations is that of the first pair that fails:
  it succeeds exactly when every pair succeeds, and it raises \<open>e\<close> exactly when some pair
  raises \<open>e\<close> and all pairs before it succeed.
\<close>

lemma traverse_pairs_Inr_iff:
  "(traverse_pairs ps func = Inr ())
     = (\<forall>i<length ps. traverse_configs (fst (ps ! i)) (snd (ps ! i)) func = Inr ())"
proof (induction ps)
  case Nil
  then show ?case by simp
next
  case (Cons p ps)
  show ?case
  proof (cases "traverse_configs (fst p) (snd p) func")
    case (Inl e)
    then have "\<not> (\<forall>i<length (p # ps).
        traverse_configs (fst ((p # ps) ! i)) (snd ((p # ps) ! i)) func = Inr ())"
      by (auto intro!: exI [of _ 0])
    with Inl show ?thesis by simp
  next
    case (Inr u)
    then show ?thesis
      by (auto simp: Cons.IH less_Suc_eq_0_disj)
  qed
qed

lemma traverse_pairs_Inl_iff:
  "(traverse_pairs ps func = Inl e)
     = (\<exists>i<length ps. traverse_configs (fst (ps ! i)) (snd (ps ! i)) func = Inl e
          \<and> (\<forall>j<i. traverse_configs (fst (ps ! j)) (snd (ps ! j)) func = Inr ()))"
proof (induction ps)
  case Nil
  then show ?case by simp
next
  case (Cons p ps)
  show ?case
  proof (cases "traverse_configs (fst p) (snd p) func")
    case (Inl e')
    show ?thesis
    proof
      assume "traverse_pairs (p # ps) func = Inl e"
      with Inl have "e' = e" by simp
      with Inl show "\<exists>i<length (p # ps).
          traverse_configs (fst ((p # ps) ! i)) (snd ((p # ps) ! i)) func = Inl e
          \<and> (\<forall>j<i. traverse_configs (fst ((p # ps) ! j)) (snd ((p # ps) ! j)) func = Inr ())"
        by (intro exI [of _ 0]) simp
    next
      assume "\<exists>i<length (p # ps).
          traverse_configs (fst ((p # ps) ! i)) (snd ((p # ps) ! i)) func = Inl e
          \<and> (\<forall>j<i. traverse_configs (fst ((p # ps) ! j)) (snd ((p # ps) ! j)) func = Inr ())"
      then obtain i where i: "i < length (p # ps)"
          "traverse_configs (fst ((p # ps) ! i)) (snd ((p # ps) ! i)) func = Inl e"
          "\<forall>j<i. traverse_configs (fst ((p # ps) ! j)) (snd ((p # ps) ! j)) func = Inr ()"
        by blast
      have "i = 0"
      proof (rule ccontr)
        assume "i \<noteq> 0"
        with i(3) have "traverse_configs (fst ((p # ps) ! 0)) (snd ((p # ps) ! 0)) func = Inr ()"
          by blast
        with Inl show False by simp
      qed
      with i(2) Inl show "traverse_pairs (p # ps) func = Inl e" by simp
    qed
  next
    case (Inr u)
    have "(\<exists>i<length (p # ps).
          traverse_configs (fst ((p # ps) ! i)) (snd ((p # ps) ! i)) func = Inl e
          \<and> (\<forall>j<i. traverse_configs (fst ((p # ps) ! j)) (snd ((p # ps) ! j)) func = Inr ()))
      = (\<exists>i<length ps. traverse_configs (fst (ps ! i)) (snd (ps ! i)) func = Inl e
          \<and> (\<forall>j<i. traverse_configs (fst (ps ! j)) (snd (ps ! j)) func = Inr ()))"
      (is "?L = ?R")
    proof
      assume ?L
      then obtain i where i: "i < length (p # ps)"
          "traverse_configs (fst ((p # ps) ! i)) (snd ((p # ps) ! i)) func = Inl e"
          "\<forall>j<i. traverse_configs (fst ((p # ps) ! j)) (snd ((p # ps) ! j)) func = Inr ()"
        by blast
      from i(2) Inr have "i \<noteq> 0" by (auto intro: ccontr)
      then obtain k where k: "i = Suc k" by (cases i) auto
      from i(3) k have "\<forall>j<k. traverse_configs (fst (ps ! j)) (snd (ps ! j)) func = Inr ()"
        by (auto dest: spec [of _ "Suc _"])
      with i(1,2) k show ?R by auto
    next
      assume ?R
      then obtain k where k: "k < length ps"
          "traverse_configs (fst (ps ! k)) (snd (ps ! k)) func = Inl e"
          "\<forall>j<k. traverse_configs (fst (ps ! j)) (snd (ps ! j)) func = Inr ()"
        by blast
      have "\<forall>j<Suc k. traverse_configs (fst ((p # ps) ! j)) (snd ((p # ps) ! j)) func = Inr ()"
        using k(3) Inr by (auto simp: nth_Cons' )
      with k(1,2) show ?L by (intro exI [of _ "Suc k"]) simp
    qed
    with Inr Cons.IH show ?thesis by simp
  qed
qed

lemma traverse_Seq_Inr_iff:
  "(traverse_configs (Seq xs) (Seq ys) func = Inr ())
     = (\<forall>i<min (length xs) (length ys). traverse_configs (xs ! i) (ys ! i) func = Inr ())"
  by (simp add: traverse_pairs_Inr_iff)

lemma traverse_Seq_Inl_iff:
  "(traverse_configs (Seq xs) (Seq ys) func = Inl e)
     = (\<exists>i<min (length xs) (length ys). traverse_configs (xs ! i) (ys ! i) func = Inl e
          \<and> (\<forall>j<i. traverse_configs (xs ! j) (ys ! j) func = Inr ()))"
proof -
  have "(\<exists>i<length (zip xs ys).
          traverse_configs (fst (zip xs ys ! i)) (snd (zip xs ys ! i)) func = Inl e
          \<and> (\<forall>j<i. traverse_configs (fst (zip xs ys ! j)) (snd (zip xs ys ! j)) func = Inr ()))
      = (\<exists>i<min (length xs) (length ys). traverse_configs (xs ! i) (ys ! i) func = Inl e
          \<and> (\<forall>j<i. traverse_configs (xs ! j) (ys ! j) func = Inr ()))"
    by (intro ex_cong1) auto
  then show ?thesis by (simp add: traverse_pairs_Inl_iff)
qed

lemma check_equality_True_iff:
  "(check_equality a b = Inr True) = (traverse_configs a b assert_equality = Inr ())"
  by (auto simp: check_equality_def split: sum.splits error.splits)

lemma check_equality_False_iff:
  "(check_equality a b = Inr False) = (traverse_configs a b assert_equality = Inl AssertionError)"
  by (auto simp: check_equality_def split: sum.splits error.splits)

lemma check_equality_Inl_iff:
  "(check_equality a b = Inl e)
     = (traverse_configs a b assert_equality = Inl e \<and> e \<noteq> AssertionError)"
  by (auto simp: check_equality_def split: sum.splits error.splits)

text \<open>
  C9: on two lists the traversal visits the pairs of \<^verbatim>\<open>zip(base, other)\<close> only, so it
  behaves as on the two prefixes of the shorter length, for any leaf function; the same
  holds for \<^verbatim>\<open>check_equality\<close>. Extra elements at the end of either list change
  nothing: a list compares with an extension of itself as it compares with itself. Within
  the common prefix the elements are compared pairwise, in order: with \<open>n\<close> the shorter of
  the two lengths, the traversal succeeds exactly when the elements at every position below
  \<open>n\<close> compare successfully, and it raises \<open>e\<close> exactly when the elements at some position
  below \<open>n\<close> raise \<open>e\<close> and those at all earlier positions compare successfully. Hence
  \<^verbatim>\<open>check_equality\<close> of two lists is \<^verbatim>\<open>True\<close> exactly when it is \<^verbatim>\<open>True\<close> at every position
  below \<open>n\<close>, it is \<^verbatim>\<open>False\<close> exactly when it is \<^verbatim>\<open>False\<close> at some position below \<open>n\<close> and
  \<^verbatim>\<open>True\<close> at all earlier ones, and it raises exactly when it raises at some position below
  \<open>n\<close> and is \<^verbatim>\<open>True\<close> at all earlier ones.
\<close>

theorem traverse_configs_zip_shorter:
  "traverse_configs (Seq xs) (Seq ys) func
     = traverse_configs (Seq (take (min (length xs) (length ys)) xs))
         (Seq (take (min (length xs) (length ys)) ys)) func
   \<and> check_equality (Seq xs) (Seq ys)
     = check_equality (Seq (take (min (length xs) (length ys)) xs))
         (Seq (take (min (length xs) (length ys)) ys))
   \<and> check_equality (Seq xs) (Seq (xs @ extra)) = check_equality (Seq xs) (Seq xs)
   \<and> check_equality (Seq (xs @ extra)) (Seq xs) = check_equality (Seq xs) (Seq xs)
   \<and> (traverse_configs (Seq xs) (Seq ys) func = Inr ())
     = (\<forall>i<min (length xs) (length ys). traverse_configs (xs ! i) (ys ! i) func = Inr ())
   \<and> (traverse_configs (Seq xs) (Seq ys) func = Inl e)
     = (\<exists>i<min (length xs) (length ys). traverse_configs (xs ! i) (ys ! i) func = Inl e
          \<and> (\<forall>j<i. traverse_configs (xs ! j) (ys ! j) func = Inr ()))
   \<and> (check_equality (Seq xs) (Seq ys) = Inr True)
     = (\<forall>i<min (length xs) (length ys). check_equality (xs ! i) (ys ! i) = Inr True)
   \<and> (check_equality (Seq xs) (Seq ys) = Inr False)
     = (\<exists>i<min (length xs) (length ys). check_equality (xs ! i) (ys ! i) = Inr False
          \<and> (\<forall>j<i. check_equality (xs ! j) (ys ! j) = Inr True))
   \<and> (check_equality (Seq xs) (Seq ys) = Inl e)
     = (\<exists>i<min (length xs) (length ys). check_equality (xs ! i) (ys ! i) = Inl e
          \<and> (\<forall>j<i. check_equality (xs ! j) (ys ! j) = Inr True))"
proof -
  have eqs: "traverse_configs (Seq xs) (Seq ys) func
     = traverse_configs (Seq (take (min (length xs) (length ys)) xs))
         (Seq (take (min (length xs) (length ys)) ys)) func
   \<and> check_equality (Seq xs) (Seq ys)
     = check_equality (Seq (take (min (length xs) (length ys)) xs))
         (Seq (take (min (length xs) (length ys)) ys))
   \<and> check_equality (Seq xs) (Seq (xs @ extra)) = check_equality (Seq xs) (Seq xs)
   \<and> check_equality (Seq (xs @ extra)) (Seq xs) = check_equality (Seq xs) (Seq xs)"
    by (simp add: check_equality_def zip_take_min zip_append_right zip_append_left)
  have t: "(check_equality (Seq xs) (Seq ys) = Inr True)
     = (\<forall>i<min (length xs) (length ys). check_equality (xs ! i) (ys ! i) = Inr True)"
    by (simp only: check_equality_True_iff traverse_Seq_Inr_iff)
  have f: "(check_equality (Seq xs) (Seq ys) = Inr False)
     = (\<exists>i<min (length xs) (length ys). check_equality (xs ! i) (ys ! i) = Inr False
          \<and> (\<forall>j<i. check_equality (xs ! j) (ys ! j) = Inr True))"
    by (simp only: check_equality_True_iff check_equality_False_iff traverse_Seq_Inl_iff)
  have x: "(check_equality (Seq xs) (Seq ys) = Inl e)
     = (\<exists>i<min (length xs) (length ys). check_equality (xs ! i) (ys ! i) = Inl e
          \<and> (\<forall>j<i. check_equality (xs ! j) (ys ! j) = Inr True))"
    by (simp only: check_equality_True_iff check_equality_Inl_iff traverse_Seq_Inl_iff) blast
  from eqs traverse_Seq_Inr_iff [of xs ys func] traverse_Seq_Inl_iff [of xs ys func e] t f x
  show ?thesis by (intro conjI) blast+
qed

text \<open>
  The property at lists of lengths one, two and three: \<^verbatim>\<open>[1]\<close> against \<^verbatim>\<open>[2, 3]\<close> is
  \<^verbatim>\<open>False\<close>, since the first elements differ; \<^verbatim>\<open>[1, 'a']\<close> against \<^verbatim>\<open>[1, 'a', 3]\<close> is \<^verbatim>\<open>True\<close>,
  the third element being ignored; \<^verbatim>\<open>[1, 'a', 3]\<close> against \<^verbatim>\<open>[1, 'b']\<close> is \<^verbatim>\<open>False\<close>, by the
  second elements.
\<close>

theorem traverse_configs_zip_shorter_witness:
  "check_equality (Seq [Leaf (LInt 1)]) (Seq [Leaf (LInt 2), Leaf (LInt 3)] :: string config)
     = Inr False
   \<and> check_equality (Seq [Leaf (LInt 1), Leaf (LStr ''a'')])
        (Seq [Leaf (LInt 1), Leaf (LStr ''a''), Leaf (LInt 3)] :: string config) = Inr True
   \<and> check_equality (Seq [Leaf (LInt 1), Leaf (LStr ''a''), Leaf (LInt 3)])
        (Seq [Leaf (LInt 1), Leaf (LStr ''b'')] :: string config) = Inr False"
proof -
  let ?one = "Leaf (LInt 1) :: string config"
  let ?two = "Leaf (LInt 2) :: string config"
  let ?three = "Leaf (LInt 3) :: string config"
  let ?a = "Leaf (LStr ''a'') :: string config"
  let ?b = "Leaf (LStr ''b'') :: string config"
  have e1: "check_equality ?one ?two = Inr False"
    and e2: "check_equality ?one ?one = Inr True"
    and e3: "check_equality ?a ?a = Inr True"
    and e4: "check_equality ?a ?b = Inr False"
    by (simp_all add: check_equality_def leaf_cmp_defs)
  have T: "(check_equality (Seq xs) (Seq ys) = Inr True)
      = (\<forall>i<min (length xs) (length ys). check_equality (xs ! i) (ys ! i) = Inr True)"
    and F: "(check_equality (Seq xs) (Seq ys) = Inr False)
      = (\<exists>i<min (length xs) (length ys). check_equality (xs ! i) (ys ! i) = Inr False
          \<and> (\<forall>j<i. check_equality (xs ! j) (ys ! j) = Inr True))"
    for xs ys :: "string config list"
    using traverse_configs_zip_shorter [of xs ys assert_equality "[]" KeyError] by blast+
  have "\<exists>i<min (length [?one]) (length [?two, ?three]).
      check_equality ([?one] ! i) ([?two, ?three] ! i) = Inr False
      \<and> (\<forall>j<i. check_equality ([?one] ! j) ([?two, ?three] ! j) = Inr True)"
    by (intro exI [of _ 0]) (simp add: e1)
  then have 1: "check_equality (Seq [?one]) (Seq [?two, ?three]) = Inr False"
    by (simp only: F)
  have "\<forall>i<min (length [?one, ?a]) (length [?one, ?a, ?three]).
      check_equality ([?one, ?a] ! i) ([?one, ?a, ?three] ! i) = Inr True"
    by (simp add: e2 e3 less_Suc_eq_0_disj numeral_2_eq_2 nth_Cons')
  then have 2: "check_equality (Seq [?one, ?a]) (Seq [?one, ?a, ?three]) = Inr True"
    by (simp only: T)
  have "\<exists>i<min (length [?one, ?a, ?three]) (length [?one, ?b]).
      check_equality ([?one, ?a, ?three] ! i) ([?one, ?b] ! i) = Inr False
      \<and> (\<forall>j<i. check_equality ([?one, ?a, ?three] ! j) ([?one, ?b] ! j) = Inr True)"
    by (intro exI [of _ 1]) (simp add: e2 e4)
  then have 3: "check_equality (Seq [?one, ?a, ?three]) (Seq [?one, ?b]) = Inr False"
    by (simp only: F)
  from 1 2 3 show ?thesis by (intro conjI)
qed

section \<open>Properties of the quantity parser\<close>


lemma py_split1_no_space:
  assumes "\<forall>c\<in>set text. \<not> is_space c"
  shows "py_split1 text = (if text = [] then [] else [text])"
proof -
  have d: "dropWhile is_space text = text"
    using assms by (cases "text") auto
  have t: "takeWhile (\<lambda>c. \<not> is_space c) text = text"
    using assms by (simp add: takeWhile_eq_all_conv)
  have r: "dropWhile (\<lambda>c. \<not> is_space c) text = []"
    using assms by (simp add: dropWhile_eq_Nil_conv)
  show ?thesis by (simp add: py_split1_def d t r)
qed

text \<open>
  C7: a string without any whitespace character has no separator, so the unpacking of
  \<^verbatim>\<open>text.split(None, 1)\<close> into two names fails and \<^verbatim>\<open>quantity_from_str\<close> raises
  \<^verbatim>\<open>ValueError\<close> (the spec's FormatError), whatever the unit system.
\<close>

theorem quantity_from_str_no_separator:
  assumes "\<forall>c\<in>set text. \<not> is_space c"
  shows "quantity_from_str parse_unit L_sun text = Inl ValueError"
  using py_split1_no_space [OF assms] by (simp add: quantity_from_str_def)

text \<open>C7 on the string \<^verbatim>\<open>5\<close>.\<close>

theorem quantity_from_str_no_separator_witness:
  "list_all (\<lambda>c. \<not> is_space c) ''5''
   \<and> quantity_from_str cgs_units L_sun_cgs ''5'' = Inl ValueError"
proof -
  have h: "\<forall>c\<in>set ''5''. \<not> is_space c" by (simp add: is_space_def)
  from quantity_from_str_no_separator [OF h, of cgs_units L_sun_cgs] h show ?thesis
    by (simp add: list_all_iff)
qed



section \<open>Properties of the loader\<close>

lemma keys_od_setitem:
  "map fst (od_setitem d k v) = (if k \<in> set (map fst d) then map fst d else map fst d @ [k])"
  by (induction d) auto

lemma map_of_od_setitem: "map_of (od_setitem d k v) = (map_of d)(k \<mapsto> v)"
  by (induction d) (auto simp: fun_eq_iff)













section \<open>Properties of the store writer\<close>

lemma np_isscalar_iff: "np_isscalar v = (\<exists>x. v = Scalar x)"
  by (cases v) simp_all

lemma Series_to_hdf_frame:
  "Series_to_hdf h key v = Inr h' \<Longrightarrow>
   opened h' = opened h \<and> (\<forall>k. k \<noteq> hdf_key key \<longrightarrow> contents h' k = contents h k)"
  by (cases v) (auto simp: put_def split: if_splits)

lemma DataFrame_to_hdf_frame:
  "DataFrame_to_hdf h key v = Inr h' \<Longrightarrow>
   opened h' = opened h \<and> (\<forall>k. k \<noteq> hdf_key key \<longrightarrow> contents h' k = contents h k)"
  by (cases v) (auto simp: put_def split: if_splits)

lemma store_element_scalar:
  "cgs_value cgs elem = Scalar x \<Longrightarrow>
   store_element cgs path key elem h scalars = Inr (h, od_setitem scalars key x)"
  by (simp add: store_element_def)

lemma store_element_Inl:
  "store_element cgs path key elem h scalars = Inl (e, h') \<Longrightarrow> h' = h"
  by (auto simp: store_element_def Let_def split: pyvalue.splits sum.splits if_splits)

lemma store_element_Inr:
  assumes "store_element cgs path key elem h scalars = Inr (h', scalars')"
    and "\<not> np_isscalar (cgs_value cgs elem)"
  shows "scalars' = scalars \<and> opened h' = opened h
    \<and> (\<forall>k. k \<noteq> hdf_key (os_path_join path key) \<longrightarrow> contents h' k = contents h k)"
proof -
  let ?v = "cgs_value cgs elem"
  let ?key = "os_path_join path key"
  from assms(2) have ns: "\<And>x. ?v \<noteq> Scalar x" by (simp add: np_isscalar_iff)
  from assms(1) ns have sc: "scalars' = scalars"
    by (auto simp: store_element_def Let_def split: pyvalue.splits sum.splits if_splits)
  from assms(1) ns have
    "Series_to_hdf h ?key ?v = Inr h' \<or> DataFrame_to_hdf h ?key ?v = Inr h'
     \<or> h' = put h ?key (DataFrameOfList ?v)"
    by (auto simp: store_element_def Let_def
        split: pyvalue.splits sum.splits if_splits error.splits)
  then have "opened h' = opened h
      \<and> (\<forall>k. k \<noteq> hdf_key ?key \<longrightarrow> contents h' k = contents h k)"
    using Series_to_hdf_frame [of h ?key ?v h'] DataFrame_to_hdf_frame [of h ?key ?v h']
    by (auto simp: put_def)
  with sc show ?thesis by simp
qed

lemma store_element_frame:
  assumes "store_element cgs path key elem h scalars = Inr (h', scalars')"
  shows "opened h' = opened h
    \<and> (\<forall>k. k \<noteq> hdf_key (os_path_join path key) \<longrightarrow> contents h' k = contents h k)"
proof (cases "np_isscalar (cgs_value cgs elem)")
  case True
  then obtain x where "cgs_value cgs elem = Scalar x" by (auto simp: np_isscalar_iff)
  from store_element_scalar [OF this, of path key h scalars] assms show ?thesis by simp
next
  case False
  from store_element_Inr [OF assms False] show ?thesis by simp
qed

lemma store_elements_frame:
  "opened (loop_store (store_elements cgs path elements h scalars)) = opened h
   \<and> (\<forall>k. (\<forall>kv\<in>set elements. hdf_key (os_path_join path (fst kv)) \<noteq> k)
          \<longrightarrow> contents (loop_store (store_elements cgs path elements h scalars)) k
              = contents h k)"
proof (induction elements arbitrary: h scalars)
  case Nil
  then show ?case by simp
next
  case (Cons kv rest)
  show ?case
  proof (cases "store_element cgs path (fst kv) (snd kv) h scalars")
    case (Inl eh)
    obtain e h' where eh: "eh = (e, h')" by (cases eh)
    with Inl store_element_Inl [of cgs path "fst kv" "snd kv" h scalars e h']
    show ?thesis by simp
  next
    case (Inr hs)
    obtain h' scalars' where hs: "hs = (h', scalars')" by (cases hs)
    from store_element_frame [of cgs path "fst kv" "snd kv" h scalars h' scalars'] Inr hs
    have f: "opened h' = opened h"
      "\<And>k. k \<noteq> hdf_key (os_path_join path (fst kv)) \<Longrightarrow> contents h' k = contents h k"
      by auto
    from Cons.IH [of h' scalars'] Inr hs f show ?thesis by auto
  qed
qed

lemma store_elements_no_scalars:
  "\<forall>kv\<in>set elements. \<not> np_isscalar (cgs_value cgs (snd kv)) \<Longrightarrow>
   store_elements cgs path elements h scalars = Inr (h1, scalars1) \<Longrightarrow> scalars1 = scalars"
proof (induction elements arbitrary: h scalars)
  case Nil
  then show ?case by simp
next
  case (Cons kv rest)
  from Cons.prems(2) obtain h' scalars'
    where one: "store_element cgs path (fst kv) (snd kv) h scalars = Inr (h', scalars')"
      and rest: "store_elements cgs path rest h' scalars' = Inr (h1, scalars1)"
    by (auto split: sum.splits)
  from Cons.prems(1) have "\<not> np_isscalar (cgs_value cgs (snd kv))" by simp
  from store_element_Inr [OF one this] have "scalars' = scalars" by simp
  moreover from Cons.prems(1) have "\<forall>kv\<in>set rest. \<not> np_isscalar (cgs_value cgs (snd kv))"
    by simp
  from Cons.IH [OF this rest] have "scalars1 = scalars'" .
  ultimately show ?case by simp
qed

lemma store_elements_scalars:
  "store_elements cgs path elements h scalars = Inr (h1, scalars1) \<Longrightarrow>
   map_of scalars1 = map_of scalars ++ map_of (rev (scalar_items cgs elements))"
proof (induction elements arbitrary: h scalars)
  case Nil
  then show ?case by simp
next
  case (Cons kv rest)
  from Cons.prems obtain h' scalars'
    where one: "store_element cgs path (fst kv) (snd kv) h scalars = Inr (h', scalars')"
      and rest: "store_elements cgs path rest h' scalars' = Inr (h1, scalars1)"
    by (auto split: sum.splits)
  note IH = Cons.IH [OF rest]
  show ?case
  proof (cases "np_isscalar (cgs_value cgs (snd kv))")
    case True
    then obtain x where x: "cgs_value cgs (snd kv) = Scalar x"
      by (auto simp: np_isscalar_iff)
    from store_element_scalar [OF x, of path "fst kv" h scalars] one
    have "scalars' = od_setitem scalars (fst kv) x" by simp
    with IH x show ?thesis
      by (simp add: map_of_od_setitem map_add_upd_left fun_eq_iff map_add_def split: option.splits)
  next
    case False
    from store_element_Inr [OF one False] have "scalars' = scalars" by simp
    moreover from False have "scalar_items cgs (kv # rest) = scalar_items cgs rest"
      by (cases "cgs_value cgs (snd kv)") simp_all
    ultimately show ?thesis using IH by simp
  qed
qed

lemma distinct_od_setitem:
  "distinct (map fst d) \<Longrightarrow> distinct (map fst (od_setitem d k v))"
  by (simp add: keys_od_setitem)

lemma store_elements_distinct:
  "store_elements cgs path elements h scalars = Inr (h1, scalars1) \<Longrightarrow>
   distinct (map fst scalars) \<Longrightarrow> distinct (map fst scalars1)"
proof (induction elements arbitrary: h scalars)
  case Nil
  then show ?case by simp
next
  case (Cons kv rest)
  from Cons.prems(1) obtain h' scalars'
    where one: "store_element cgs path (fst kv) (snd kv) h scalars = Inr (h', scalars')"
      and rest: "store_elements cgs path rest h' scalars' = Inr (h1, scalars1)"
    by (auto split: sum.splits)
  have "distinct (map fst scalars')"
  proof (cases "np_isscalar (cgs_value cgs (snd kv))")
    case True
    then obtain x where x: "cgs_value cgs (snd kv) = Scalar x"
      by (auto simp: np_isscalar_iff)
    from store_element_scalar [OF x, of path "fst kv" h scalars] one
    have "scalars' = od_setitem scalars (fst kv) x" by simp
    with Cons.prems(2) show ?thesis by (simp only: distinct_od_setitem)
  next
    case False
    from store_element_Inr [OF one False] Cons.prems(2) show ?thesis by simp
  qed
  with Cons.IH [OF rest] show ?case .
qed

lemma set_Series_of_dict:
  "((Name k, x) \<in> set (Series_of_dict d)) = ((k, x) \<in> set d)"
  by (force simp: Series_of_dict_def)

lemma length_Series_of_dict: "length (Series_of_dict d) = length d"
  by (simp add: Series_of_dict_def)

text \<open>
  C2: when the loop over the elements has ended with a non-empty dict \<^verbatim>\<open>scalars\<close> and
  the store then holds a Series \<open>old\<close> at \<^verbatim>\<open>path/scalars\<close>, the call returns, and the
  store holds at \<^verbatim>\<open>path/scalars\<close> the Series of the rows of \<open>old\<close> followed by the rows
  of \<^verbatim>\<open>pd.Series(scalars)\<close>; nothing is removed from either part, and every other key of
  the store is as the loop left it. The new rows are one for each buffered name, with the
  scalar value of the element of that name.
\<close>

theorem to_hdf_appends_scalars:
  assumes loop: "store_elements cgs path elements h [] = Inr (h1, scalars)"
    and buffered: "scalars \<noteq> []"
    and old: "contents h1 (hdf_key (os_path_join path ''scalars'')) = Some (Series old)"
  shows "\<exists>h2. to_hdf cgs h path elements complevel complib = Inr h2
    \<and> contents h2 (hdf_key (os_path_join path ''scalars''))
        = Some (Series (old @ Series_of_dict scalars))
    \<and> (\<forall>k. k \<noteq> hdf_key (os_path_join path ''scalars'') \<longrightarrow> contents h2 k = contents h1 k)
    \<and> length (old @ Series_of_dict scalars) = length old + length scalars
    \<and> (\<forall>k x. ((Name k, x) \<in> set (Series_of_dict scalars))
          = (map_of (rev (scalar_items cgs elements)) k = Some x))"
proof -
  let ?sp = "os_path_join path ''scalars''"
  let ?h2 = "put (h1\<lparr>opened := opened h1 @ [(complevel, complib)]\<rparr>) ?sp
      (Series (old @ Series_of_dict scalars))"
  from loop buffered old have r: "to_hdf cgs h path elements complevel complib = Inr ?h2"
    by (simp add: to_hdf_def Let_def)
  have c: "contents ?h2 (hdf_key ?sp) = Some (Series (old @ Series_of_dict scalars))"
    by (simp add: put_def)
  have f: "\<forall>k. k \<noteq> hdf_key ?sp \<longrightarrow> contents ?h2 k = contents h1 k"
    by (simp add: put_def)
  have d: "distinct (map fst scalars)"
    using store_elements_distinct [OF loop] by simp
  have m: "map_of scalars = map_of (rev (scalar_items cgs elements))"
    using store_elements_scalars [OF loop] by simp
  have rows: "((Name k, x) \<in> set (Series_of_dict scalars))
      = (map_of (rev (scalar_items cgs elements)) k = Some x)" for k x
    using d m [symmetric] by (simp add: set_Series_of_dict)
  from r c f rows show ?thesis
    by (simp add: length_Series_of_dict)
qed

text \<open>
  C2 on the two writes \<^verbatim>\<open>{"a": 5, "b": [1, 2, 3]}\<close> and then \<^verbatim>\<open>{"a": 6}\<close> to the
  path \<^verbatim>\<open>model\<close> of an empty store: the first leaves the scalar record \<^verbatim>\<open>a: 5\<close>,
  the second makes it \<^verbatim>\<open>a: 5, a: 6\<close> and leaves the table of \<^verbatim>\<open>b\<close> as it is.
\<close>

theorem to_hdf_appends_scalars_witness:
  "to_hdf cm_of_m \<lparr>contents = Map.empty, opened = []\<rparr> ''model''
      [(''a'', Plain (Scalar 5)), (''b'', Plain (NDArray [3] [1, 2, 3]))] 9 ''blosc''
     = Inr \<lparr>contents = [''/model/b'' \<mapsto> Series [(Pos 0, 1), (Pos 1, 2), (Pos 2, 3)],
                          ''/model/scalars'' \<mapsto> Series [(Name ''a'', 5)]],
            opened = [(9, ''blosc'')]\<rparr>
   \<and> store_elements cm_of_m ''model'' [(''a'', Plain (Scalar 6))]
        \<lparr>contents = [''/model/b'' \<mapsto> Series [(Pos 0, 1), (Pos 1, 2), (Pos 2, 3)],
                     ''/model/scalars'' \<mapsto> Series [(Name ''a'', 5)]],
         opened = [(9, ''blosc'')]\<rparr> []
     = Inr (\<lparr>contents = [''/model/b'' \<mapsto> Series [(Pos 0, 1), (Pos 1, 2), (Pos 2, 3)],
                           ''/model/scalars'' \<mapsto> Series [(Name ''a'', 5)]],
             opened = [(9, ''blosc'')]\<rparr>, [(''a'', 6)])
   \<and> (\<exists>h2. to_hdf cm_of_m
          \<lparr>contents = [''/model/b'' \<mapsto> Series [(Pos 0, 1), (Pos 1, 2), (Pos 2, 3)],
                       ''/model/scalars'' \<mapsto> Series [(Name ''a'', 5)]],
           opened = [(9, ''blosc'')]\<rparr>
          ''model'' [(''a'', Plain (Scalar 6))] 9 ''blosc'' = Inr h2
        \<and> contents h2 ''/model/scalars'' = Some (Series [(Name ''a'', 5), (Name ''a'', 6)])
        \<and> contents h2 ''/model/b'' = Some (Series [(Pos 0, 1), (Pos 1, 2), (Pos 2, 3)]))"
proof -
  let ?h0 = "\<lparr>contents = Map.empty, opened = []\<rparr> :: int hdf"
  let ?h1 = "\<lparr>contents = [''/model/b'' \<mapsto> Series [(Pos 0, 1), (Pos 1, 2), (Pos 2, 3 :: int)],
                         ''/model/scalars'' \<mapsto> Series [(Name ''a'', 5)]],
            opened = [(9 :: nat, ''blosc'')]\<rparr>"
  let ?first = "[(''a'', Plain (Scalar 5)), (''b'', Plain (NDArray [3] [1, 2, 3]))]
      :: (string \<times> (int, int) element) list"
  let ?second = "[(''a'', Plain (Scalar 6))] :: (string \<times> (int, int) element) list"
  have k: "hdf_key (os_path_join ''model'' ''scalars'') = ''/model/scalars''"
    by (simp add: hdf_key_def os_path_join_def)
  have kb: "hdf_key (os_path_join ''model'' ''b'') = ''/model/b''"
    by (simp add: hdf_key_def os_path_join_def)
  have z: "zip (map Pos [0..<Suc (Suc (Suc 0))]) [1, 2, 3 :: int]
      = [(Pos 0, 1), (Pos 1, 2), (Pos 2, 3)]"
    by (simp add: numeral_2_eq_2 upt_rec)
  have first: "to_hdf cm_of_m ?h0 ''model'' ?first 9 ''blosc'' = Inr ?h1"
    by (simp add: to_hdf_def store_element_def cgs_value_def put_def k kb Series_of_dict_def z
        del: upt_Suc)
  have loop: "store_elements cm_of_m ''model'' ?second ?h1 [] = Inr (?h1, [(''a'', 6)])"
    by (simp add: store_element_def cgs_value_def)
  have buffered: "[(''a'', 6 :: int)] \<noteq> []" by simp
  have old: "contents ?h1 (hdf_key (os_path_join ''model'' ''scalars'')) = Some (Series [(Name ''a'', 5)])"
    by (simp add: k)
  have rows: "Series_of_dict [(''a'', 6 :: int)] = [(Name ''a'', 6)]"
    by (simp add: Series_of_dict_def)
  from to_hdf_appends_scalars [OF loop buffered old, of 9 "''blosc''"] obtain h2
    where r: "to_hdf cm_of_m ?h1 ''model'' ?second 9 ''blosc'' = Inr h2"
      and c: "contents h2 (hdf_key (os_path_join ''model'' ''scalars''))
        = Some (Series ([(Name ''a'', 5)] @ Series_of_dict [(''a'', 6)]))"
      and f: "\<forall>k. k \<noteq> hdf_key (os_path_join ''model'' ''scalars'')
        \<longrightarrow> contents h2 k = contents ?h1 k"
    by blast
  from c have c': "contents h2 ''/model/scalars'' = Some (Series [(Name ''a'', 5), (Name ''a'', 6)])"
    by (simp only: k rows append.simps)
  from f have "contents h2 ''/model/b'' = contents ?h1 ''/model/b''"
    by (simp add: k)
  then have b: "contents h2 ''/model/b'' = Some (Series [(Pos 0, 1), (Pos 1, 2), (Pos 2, 3)])"
    by simp
  from r c' b have "\<exists>h2. to_hdf cm_of_m ?h1 ''model'' ?second 9 ''blosc'' = Inr h2
      \<and> contents h2 ''/model/scalars'' = Some (Series [(Name ''a'', 5), (Name ''a'', 6)])
      \<and> contents h2 ''/model/b'' = Some (Series [(Pos 0, 1), (Pos 1, 2), (Pos 2, 3)])"
    by blast
  with first loop show ?thesis by (intro conjI)
qed

text \<open>
  C10, as stated, fails when an element that is not a scalar is named \<^verbatim>\<open>scalars\<close>: the
  loop itself writes it to \<^verbatim>\<open>path/scalars\<close>, over the record that was there.
\<close>

theorem to_hdf_overwrites_scalars_counterexample:
  "list_all (\<lambda>kv. \<not> np_isscalar (cgs_value cm_of_m (snd kv)))
      [(''scalars'', Plain (NDArray [2] [1, 2]))]
   \<and> contents \<lparr>contents = [''/model/scalars'' \<mapsto> Series [(Name ''a'', 5)]], opened = []\<rparr>
        ''/model/scalars'' = Some (Series [(Name ''a'', 5)])
   \<and> contents (store_after (to_hdf cm_of_m
        \<lparr>contents = [''/model/scalars'' \<mapsto> Series [(Name ''a'', 5)]], opened = []\<rparr>
        ''model'' [(''scalars'', Plain (NDArray [2] [1, 2]))] 9 ''blosc''))
        ''/model/scalars'' = Some (Series [(Pos 0, 1), (Pos 1, 2)])"
  by (simp add: to_hdf_def store_element_def cgs_value_def put_def hdf_key_def os_path_join_def)

text \<open>
  C10, amended: when no element is a scalar, the outcome of the call is the outcome of the
  loop over the elements: the step for the scalar record does not run, and the store is
  never opened by \<^verbatim>\<open>pd.HDFStore\<close>. Every key of the store to which no element is written
  keeps its object; so the record at \<^verbatim>\<open>path/scalars\<close> is unchanged whenever no element
  is stored under that key.
\<close>

theorem to_hdf_no_scalars:
  assumes "\<forall>kv\<in>set elements. \<not> np_isscalar (cgs_value cgs (snd kv))"
  shows "to_hdf cgs h path elements complevel complib
      = map_sum id fst (store_elements cgs path elements h [])
    \<and> opened (store_after (to_hdf cgs h path elements complevel complib)) = opened h
    \<and> (\<forall>k. (\<forall>kv\<in>set elements. hdf_key (os_path_join path (fst kv)) \<noteq> k)
          \<longrightarrow> contents (store_after (to_hdf cgs h path elements complevel complib)) k
              = contents h k)
    \<and> ((\<forall>kv\<in>set elements. hdf_key (os_path_join path (fst kv))
            \<noteq> hdf_key (os_path_join path ''scalars''))
          \<longrightarrow> contents (store_after (to_hdf cgs h path elements complevel complib))
                (hdf_key (os_path_join path ''scalars''))
              = contents h (hdf_key (os_path_join path ''scalars'')))"
proof -
  let ?loop = "store_elements cgs path elements h []"
  have skip: "to_hdf cgs h path elements complevel complib = map_sum id fst ?loop"
  proof (cases ?loop)
    case (Inl eh)
    then show ?thesis by (simp add: to_hdf_def)
  next
    case (Inr hs)
    obtain h1 scalars where hs: "hs = (h1, scalars)" by (cases hs)
    from store_elements_no_scalars [OF assms] Inr hs have "scalars = []" by simp
    with Inr hs show ?thesis by (simp add: to_hdf_def)
  qed
  have after: "store_after (map_sum id fst ?loop) = loop_store ?loop"
    by (cases ?loop) auto
  from store_elements_frame [of cgs path elements h "[]"] skip after show ?thesis
    by simp
qed

text \<open>
  The amended C10 on a call with an array and a \<^verbatim>\<open>levels\<close> object: the store is not
  opened and the record at \<^verbatim>\<open>model/scalars\<close> stays.
\<close>

theorem to_hdf_no_scalars_witness:
  "list_all (\<lambda>kv. \<not> np_isscalar (cgs_value cm_of_m (snd kv)))
      [(''b'', Plain (NDArray [3] [1, 2, 3])), (''levels'', Plain (Levels [4]))]
   \<and> list_all (\<lambda>kv. hdf_key (os_path_join ''model'' (fst kv))
            \<noteq> hdf_key (os_path_join ''model'' ''scalars''))
      ([(''b'', Plain (NDArray [3] [1, 2, 3])), (''levels'', Plain (Levels [4]))]
        :: (string \<times> (int, int) element) list)
   \<and> opened (store_after (to_hdf cm_of_m
        \<lparr>contents = [''/model/scalars'' \<mapsto> Series [(Name ''a'', 5)]], opened = []\<rparr>
        ''model'' [(''b'', Plain (NDArray [3] [1, 2, 3])), (''levels'', Plain (Levels [4]))]
        9 ''blosc'')) = []
   \<and> contents (store_after (to_hdf cm_of_m
        \<lparr>contents = [''/model/scalars'' \<mapsto> Series [(Name ''a'', 5)]], opened = []\<rparr>
        ''model'' [(''b'', Plain (NDArray [3] [1, 2, 3])), (''levels'', Plain (Levels [4]))]
        9 ''blosc'')) (hdf_key (os_path_join ''model'' ''scalars''))
      = Some (Series [(Name ''a'', 5)])"
proof -
  let ?elements = "[(''b'', Plain (NDArray [3] [1, 2, 3])), (''levels'', Plain (Levels [4]))]
      :: (string \<times> (int, int) element) list"
  let ?h = "\<lparr>contents = [''/model/scalars'' \<mapsto> Series [(Name ''a'', 5 :: int)]],
      opened = ([] :: (nat \<times> string) list)\<rparr>"
  have ns: "\<forall>kv\<in>set ?elements. \<not> np_isscalar (cgs_value cm_of_m (snd kv))"
    by (simp add: cgs_value_def)
  have keys: "\<forall>kv\<in>set ?elements. hdf_key (os_path_join ''model'' (fst kv))
      \<noteq> hdf_key (os_path_join ''model'' ''scalars'')"
    by (simp add: hdf_key_def os_path_join_def)
  have k: "hdf_key (os_path_join ''model'' ''scalars'') = ''/model/scalars''"
    by (simp add: hdf_key_def os_path_join_def)
  note no_scalars = to_hdf_no_scalars [OF ns, of ?h "''model''" 9 "''blosc''"]
  have 1: "list_all (\<lambda>kv. \<not> np_isscalar (cgs_value cm_of_m (snd kv))) ?elements"
    using ns by (simp only: list_all_iff)
  have 2: "list_all (\<lambda>kv. hdf_key (os_path_join ''model'' (fst kv))
      \<noteq> hdf_key (os_path_join ''model'' ''scalars'')) ?elements"
    using keys by (simp only: list_all_iff)
  from no_scalars have "opened (store_after (to_hdf cm_of_m ?h ''model'' ?elements 9 ''blosc''))
      = opened ?h"
    by blast
  then have 3: "opened (store_after (to_hdf cm_of_m ?h ''model'' ?elements 9 ''blosc'')) = []"
    by (simp only: hdf.simps)
  from no_scalars keys
  have "contents (store_after (to_hdf cm_of_m ?h ''model'' ?elements 9 ''blosc''))
        (hdf_key (os_path_join ''model'' ''scalars''))
      = contents ?h (hdf_key (os_path_join ''model'' ''scalars''))"
    by blast
  moreover have "contents ?h (hdf_key (os_path_join ''model'' ''scalars''))
      = Some (Series [(Name ''a'', 5)])"
    by (simp add: k)
  ultimately
  have 4: "contents (store_after (to_hdf cm_of_m ?h ''model'' ?elements 9 ''blosc''))
        (hdf_key (os_path_join ''model'' ''scalars'')) = Some (Series [(Name ''a'', 5)])"
    by (rule trans)
  show ?thesis by (intro conjI) (rule 1, rule 2, rule 3, rule 4)
qed

end
